theory Spec2Isabelle
  imports Main "HOL-Library.Char_ord" "HOL-Library.List_Lexorder" "HOL-Library.Sublist"
begin

section \<open>Console autocomplete metadata store (mappings.js)\<close>

text \<open>
  A shallow embedding of \<^verbatim>\<open>src/plugins/console/public/lib/mappings/mappings.js\<close>.
  JavaScript strings are \<open>string\<close>; the default order of \<^verbatim>\<open>Array.prototype.sort\<close>
  on strings (code units, a proper prefix first) is the lexicographic order of
  \<open>char list\<close>.

  The stores are plain objects, so a read \<^verbatim>\<open>obj[k]\<close> finds an own property or,
  failing that, a member that every object inherits from \<^verbatim>\<open>Object.prototype\<close>
  (\<^verbatim>\<open>constructor\<close>, \<^verbatim>\<open>toString\<close>, \<^verbatim>\<open>__proto__\<close>, ...). The lookups (\<open>expandAliases\<close>,
  \<open>getFields\<close>, \<open>getTypes\<close>) model both. The loaders and the normalizer are modelled
  for payloads whose index, alias and type names and whose field mappings do not
  rely on inherited members: there a read or an assignment is one among the own
  properties.
\<close>

subsection \<open>JavaScript values\<close>

text \<open>
  The JSON values the loaders walk: strings, booleans and objects. An object is the
  list of its own properties in enumeration order. Numbers, arrays and \<^verbatim>\<open>null\<close> are
  outside the modelled fragment (a property read on \<^verbatim>\<open>null\<close> throws); \<^verbatim>\<open>undefined\<close>
  is \<open>None\<close> of \<open>json option\<close>.
\<close>

datatype json = JString string | JBool bool | JObject "(string \<times> json) list"

text \<open>Truthiness, as tested by \<^verbatim>\<open>if (v)\<close>, \<^verbatim>\<open>v || d\<close> and \<^verbatim>\<open>v && w\<close>.\<close>

fun truthy :: "json option \<Rightarrow> bool" where
  "truthy None = False"
| "truthy (Some (JString s)) = (s \<noteq> [])"
| "truthy (Some (JBool b)) = b"
| "truthy (Some (JObject ps)) = True"

text \<open>Decimal numerals, for the index keys of a string's characters.\<close>

definition digit_char :: "nat \<Rightarrow> char" where
  "digit_char d = ''0123456789'' ! d"

function string_of_nat :: "nat \<Rightarrow> string" where
  "string_of_nat n =
     (if n < 10 then [digit_char n] else string_of_nat (n div 10) @ [digit_char (n mod 10)])"
  by pat_completeness auto
termination
  by (relation "measure (\<lambda>n. n)") auto

declare string_of_nat.simps [simp del]

text \<open>
  \<^verbatim>\<open>Object.entries(v)\<close> and \<^verbatim>\<open>Object.keys(v)\<close>: the own enumerable properties. A string
  has one property per character, keyed by its position; a boolean has none.
\<close>

fun Object_entries :: "json \<Rightarrow> (string \<times> json) list" where
  "Object_entries (JObject ps) = ps"
| "Object_entries (JString s) = map (\<lambda>i. (string_of_nat i, JString [s ! i])) [0..<length s]"
| "Object_entries (JBool b) = []"

definition Object_keys :: "json \<Rightarrow> string list" where
  "Object_keys v = map fst (Object_entries v)"

text \<open>
  A property read \<^verbatim>\<open>v.k\<close> for one of the fixed names the module reads
  (\<^verbatim>\<open>enabled\<close>, \<^verbatim>\<open>path\<close>, \<^verbatim>\<open>properties\<close>, \<^verbatim>\<open>fields\<close>, \<^verbatim>\<open>type\<close>, \<^verbatim>\<open>index_name\<close>,
  \<^verbatim>\<open>mappings\<close>, \<^verbatim>\<open>aliases\<close>): on a string or a boolean it is \<^verbatim>\<open>undefined\<close>.
\<close>

fun get_prop :: "json \<Rightarrow> string \<Rightarrow> json option" where
  "get_prop (JObject ps) k = map_of ps k"
| "get_prop (JString s) k = None"
| "get_prop (JBool b) k = None"

text \<open>String conversion, as done by \<^verbatim>\<open>+\<close> with a string operand.\<close>

fun to_string :: "json option \<Rightarrow> string" where
  "to_string None = ''undefined''"
| "to_string (Some (JString s)) = s"
| "to_string (Some (JBool b)) = (if b then ''true'' else ''false'')"
| "to_string (Some (JObject ps)) = ''[object Object]''"

text \<open>
  The argument of a lookup: \<^verbatim>\<open>undefined\<close>, \<^verbatim>\<open>null\<close>, one name or a list of names.
  \<open>expandAliases\<close> returns a value of the same shape.
\<close>

datatype names = Undefined | Null | Str string | Arr "string list"

subsection \<open>Own properties in enumeration order\<close>

text \<open>
  An object built by assignments enumerates its array-index keys (canonical numerals
  below \<open>2\<^sup>3\<^sup>2 - 1\<close>) first, in ascending numeric order, and then its other keys in
  the order of their creation. An assignment to an existing key keeps its place.
\<close>

definition is_digit :: "char \<Rightarrow> bool" where
  "is_digit c = (48 \<le> (of_char c :: nat) \<and> (of_char c :: nat) \<le> 57)"

definition numeral_value :: "string \<Rightarrow> nat" where
  "numeral_value s = foldl (\<lambda>acc c. 10 * acc + ((of_char c :: nat) - 48)) 0 s"

definition is_array_index :: "string \<Rightarrow> bool" where
  "is_array_index k =
     (k \<noteq> [] \<and> list_all is_digit k \<and> (length k = 1 \<or> hd k \<noteq> CHR ''0'')
      \<and> numeral_value k < 4294967295)"

fun insert_index :: "string \<Rightarrow> 'v \<Rightarrow> (string \<times> 'v) list \<Rightarrow> (string \<times> 'v) list" where
  "insert_index k v [] = [(k, v)]"
| "insert_index k v (p # ps) =
     (if is_array_index (fst p) \<and> numeral_value (fst p) < numeral_value k
      then p # insert_index k v ps
      else (k, v) # p # ps)"

fun replace_value :: "string \<Rightarrow> 'v \<Rightarrow> (string \<times> 'v) list \<Rightarrow> (string \<times> 'v) list" where
  "replace_value k v [] = []"
| "replace_value k v (p # ps) =
     (if fst p = k then (k, v) # ps else p # replace_value k v ps)"

definition obj_set :: "(string \<times> 'v) list \<Rightarrow> string \<Rightarrow> 'v \<Rightarrow> (string \<times> 'v) list" where
  "obj_set obj k v =
     (if k \<in> set (map fst obj) then replace_value k v obj
      else if is_array_index k then insert_index k v obj
      else obj @ [(k, v)])"

text \<open>
  The names of the members of \<^verbatim>\<open>Object.prototype\<close>. Each is a function, but for
  \<^verbatim>\<open>__proto__\<close>, which reads as \<^verbatim>\<open>Object.prototype\<close> itself; all of them are truthy, and
  none of them is a string or an array.
\<close>

definition Object_prototype_names :: "string list" where
  "Object_prototype_names =
     [''constructor'', ''__defineGetter__'', ''__defineSetter__'', ''hasOwnProperty'',
      ''__lookupGetter__'', ''__lookupSetter__'', ''isPrototypeOf'',
      ''propertyIsEnumerable'', ''toString'', ''valueOf'', ''__proto__'',
      ''toLocaleString'']"

definition inherited :: "string \<Rightarrow> bool" where
  "inherited k = (k \<in> set Object_prototype_names)"

text \<open>
  A read \<^verbatim>\<open>obj[k]\<close> on a plain object: the value of the own property \<open>k\<close>, else the
  inherited member of that name, else \<^verbatim>\<open>undefined\<close>.
\<close>

datatype 'v lookup = Own 'v | Inherited | Absent

definition obj_get :: "(string \<times> 'v) list \<Rightarrow> string \<Rightarrow> 'v lookup" where
  "obj_get obj k =
     (case map_of obj k of
        Some v \<Rightarrow> Own v
      | None \<Rightarrow> if inherited k then Inherited else Absent)"

subsection \<open>The module's state\<close>

text \<open>A field descriptor \<^verbatim>\<open>{ name, type }\<close>; the type may be \<^verbatim>\<open>undefined\<close>.\<close>

record field =
  name :: json
  type :: "json option"

text \<open>
  \<^verbatim>\<open>perIndexTypes\<close> maps an index name to an object from type names to field lists,
  \<^verbatim>\<open>perAliasIndices\<close> an alias name to a list of index names.
\<close>

record store =
  perIndexTypes :: "(string \<times> (string \<times> field list) list) list"
  perAliasIndices :: "(string \<times> string list) list"
  templates :: "string list"

definition initial_store :: store where
  "initial_store = \<lparr>perIndexTypes = [], perAliasIndices = [], templates = []\<rparr>"

subsection \<open>expandAliases\<close>

text \<open>
  The \<^verbatim>\<open>reduce\<close> of \<open>expandAliases\<close>: a value is pushed unless it equals the element
  before it; \<open>prev\<close> (the source's \<^verbatim>\<open>last\<close>) is \<open>None\<close> at index 0, where \<^verbatim>\<open>array[-1]\<close> is \<^verbatim>\<open>undefined\<close>.
\<close>

primrec reduce_unique :: "string option \<Rightarrow> string list \<Rightarrow> string list" where
  "reduce_unique prev [] = []"
| "reduce_unique prev (v # rest) =
     (if prev \<noteq> Some v then [v] else []) @ reduce_unique (Some v) rest"

text \<open>
  The callback of \<^verbatim>\<open>map\<close>: the index list of an alias, or the name itself in a list.
  For a name that is no own key but names a member of \<^verbatim>\<open>Object.prototype\<close> the source
  returns that member, which is no list of names: \<open>None\<close>.
\<close>

definition substitute :: "store \<Rightarrow> string \<Rightarrow> string list option" where
  "substitute s iOrA =
     (case obj_get (perAliasIndices s) iOrA of
        Own indices \<Rightarrow> Some indices
      | Inherited \<Rightarrow> None
      | Absent \<Rightarrow> Some [iOrA])"

text \<open>
  The result of \<open>expandAliases\<close> is \<^verbatim>\<open>undefined\<close>, \<^verbatim>\<open>null\<close>, a string or a list of
  strings, or else (\<open>None\<close>) a value that is or holds an inherited member of
  \<^verbatim>\<open>Object.prototype\<close>: when the substitution of an entry gave one, it is an element
  of the flattened list, so the result is that member or a list that contains it.
\<close>

definition expand_list :: "store \<Rightarrow> string list \<Rightarrow> names option" where
  "expand_list s indicesOrAliases =
     (case those (map (substitute s) indicesOrAliases) of
        None \<Rightarrow> None
      | Some substituted \<Rightarrow>
          (let ret = concat substituted;
               ret = sort ret;
               ret = reduce_unique None ret
           in Some (if length ret > 1 then Arr ret
                    else (case ret of [] \<Rightarrow> Undefined | r # _ \<Rightarrow> Str r))))"

definition expandAliases :: "store \<Rightarrow> names \<Rightarrow> names option" where
  "expandAliases s indicesOrAliases =
     (case indicesOrAliases of
        Undefined \<Rightarrow> Some Undefined
      | Null \<Rightarrow> Some Null
      | Str x \<Rightarrow> (if x = [] then Some (Str x) else expand_list s [x])
      | Arr xs \<Rightarrow> expand_list s xs)"

subsection \<open>Lodash\<close>

text \<open>
  \<^verbatim>\<open>_.uniqBy(array, iteratee)\<close> keeps an element when the value of the iteratee on it has
  not been seen on an earlier element; \<^verbatim>\<open>_.uniq(array)\<close> is the same with the element
  itself.
\<close>

fun uniqBy_seen :: "'k list \<Rightarrow> 'a list \<Rightarrow> ('a \<Rightarrow> 'k) \<Rightarrow> 'a list" where
  "uniqBy_seen seen [] iteratee = []"
| "uniqBy_seen seen (x # xs) iteratee =
     (if iteratee x \<in> set seen then uniqBy_seen seen xs iteratee
      else x # uniqBy_seen (seen @ [iteratee x]) xs iteratee)"

definition uniqBy :: "'a list \<Rightarrow> ('a \<Rightarrow> 'k) \<Rightarrow> 'a list" where
  "uniqBy array iteratee = uniqBy_seen [] array iteratee"

definition uniq :: "'a list \<Rightarrow> 'a list" where
  "uniq array = uniqBy array (\<lambda>x. x)"

subsection \<open>The normalizer\<close>

text \<open>The iteratee of both \<^verbatim>\<open>_.uniqBy\<close> calls: \<^verbatim>\<open>f.name + ':' + f.type\<close>.\<close>

definition field_key :: "field \<Rightarrow> string" where
  "field_key f = to_string (Some (name f)) @ '':'' @ to_string (type f)"

text \<open>A value that passes \<^verbatim>\<open>if (v)\<close>, or nothing.\<close>

definition when_truthy :: "json option \<Rightarrow> json option" where
  "when_truthy v = (if truthy v then v else None)"

definition applyPathSettings :: "string \<Rightarrow> json \<Rightarrow> field list \<Rightarrow> field list" where
  "applyPathSettings fieldName fieldMapping nestedFieldNames =
     (let pathType =
        (case when_truthy (get_prop fieldMapping ''path'') of
           Some p \<Rightarrow> p | None \<Rightarrow> JString ''full'')
      in if pathType = JString ''full''
         then map (\<lambda>f. f\<lparr>name := JString (fieldName @ ''.'' @ to_string (Some (name f)))\<rparr>)
                nestedFieldNames
         else nestedFieldNames)"

lemma size_map_of_json:
  "map_of ps k = Some v \<Longrightarrow> size (v :: json) < Suc (size_list (size_prod (\<lambda>_. 0) size) ps)"
  by (induction ps) (auto split: if_splits)

lemma size_entry_json:
  "(k, v) \<in> set ps \<Longrightarrow> size (v :: json) < Suc (size_list (size_prod (\<lambda>_. 0) size) ps)"
  by (induction ps) auto

lemma size_get_prop:
  "get_prop fm k = Some v \<Longrightarrow> size v < size fm"
  by (cases fm) (auto dest: size_map_of_json)

lemma size_when_truthy_prop:
  "when_truthy (get_prop fm k) = Some v \<Longrightarrow> size v < size fm"
  by (auto simp: when_truthy_def dest: size_get_prop split: if_splits)

lemma size_Object_entries:
  "(k, v) \<in> set (Object_entries j) \<Longrightarrow> size v \<le> size j"
  by (cases j) (auto dest: size_entry_json)

function getFieldNamesFromFieldMapping :: "string \<Rightarrow> json \<Rightarrow> field list"
  and getFieldNamesFromProperties :: "json option \<Rightarrow> field list" where
  "getFieldNamesFromFieldMapping fieldName fieldMapping =
     (if get_prop fieldMapping ''enabled'' = Some (JBool False) then []
      else case when_truthy (get_prop fieldMapping ''properties'') of
        Some properties \<Rightarrow>
          applyPathSettings fieldName fieldMapping (getFieldNamesFromProperties (Some properties))
      | None \<Rightarrow>
          (let fieldType = get_prop fieldMapping ''type'';
               ret = \<lparr>name = JString fieldName, type = fieldType\<rparr>;
               ret = (case when_truthy (get_prop fieldMapping ''index_name'') of
                        Some index_name \<Rightarrow> ret\<lparr>name := index_name\<rparr>
                      | None \<Rightarrow> ret)
           in case when_truthy (get_prop fieldMapping ''fields'') of
                Some multiFields \<Rightarrow>
                  ret # applyPathSettings fieldName fieldMapping
                    (concat (map (\<lambda>(fieldName, fieldMapping).
                        getFieldNamesFromFieldMapping fieldName fieldMapping)
                      (Object_entries multiFields)))
              | None \<Rightarrow> [ret]))"
| "getFieldNamesFromProperties properties =
     (let properties = (case properties of Some p \<Rightarrow> p | None \<Rightarrow> JObject []);
          fieldList = concat (map (\<lambda>(fieldName, fieldMapping).
              getFieldNamesFromFieldMapping fieldName fieldMapping)
            (Object_entries properties))
      in uniqBy fieldList field_key)"
  by pat_completeness auto
termination
proof (relation "measure (\<lambda>x. case x of
    Inl (fieldName, fieldMapping) \<Rightarrow> 2 * size fieldMapping
  | Inr properties \<Rightarrow> (case properties of Some p \<Rightarrow> 2 * size p + 1 | None \<Rightarrow> 1))")
  show "wf (measure (\<lambda>x. case x of
    Inl (fieldName, fieldMapping) \<Rightarrow> 2 * size fieldMapping
  | Inr properties \<Rightarrow> (case properties of Some p \<Rightarrow> 2 * size p + 1 | None \<Rightarrow> 1)))"
    by simp
next
  fix fieldName :: string and fieldMapping x2
  assume "when_truthy (get_prop fieldMapping ''properties'') = Some x2"
  then show "(Inr (Some x2), Inl (fieldName, fieldMapping)) \<in> measure (\<lambda>x. case x of
      Inl (fieldName, fieldMapping) \<Rightarrow> 2 * size fieldMapping
    | Inr properties \<Rightarrow> (case properties of Some p \<Rightarrow> 2 * size p + 1 | None \<Rightarrow> 1))"
    by (auto dest: size_when_truthy_prop)
next
  fix fieldName :: string and fieldMapping x xa x2 xb xc y
  assume "when_truthy (get_prop fieldMapping ''fields'') = Some x2"
    and "xb \<in> set (Object_entries x2)" and "(xc, y) = xb"
  then have "size y \<le> size x2" and "size x2 < size fieldMapping"
    by (auto dest: size_Object_entries size_when_truthy_prop)
  then show "(Inl (xc, y), Inl (fieldName, fieldMapping)) \<in> measure (\<lambda>x. case x of
      Inl (fieldName, fieldMapping) \<Rightarrow> 2 * size fieldMapping
    | Inr properties \<Rightarrow> (case properties of Some p \<Rightarrow> 2 * size p + 1 | None \<Rightarrow> 1))"
    by simp
next
  fix properties :: "json option" and x xa xb y
  assume "xa \<in> set (Object_entries x)" and "(xb, y) = xa"
    and "x = (case properties of None \<Rightarrow> JObject [] | Some p \<Rightarrow> p)"
  then show "(Inl (xb, y), Inr properties) \<in> measure (\<lambda>x. case x of
      Inl (fieldName, fieldMapping) \<Rightarrow> 2 * size fieldMapping
    | Inr properties \<Rightarrow> (case properties of Some p \<Rightarrow> 2 * size p + 1 | None \<Rightarrow> 1))"
    by (cases properties) (auto dest: size_Object_entries)
qed

declare getFieldNamesFromFieldMapping.simps [simp del]
declare getFieldNamesFromProperties.simps [simp del]

subsection \<open>Lookups\<close>

definition getTemplates :: "store \<Rightarrow> string list" where
  "getTemplates s = templates s"

text \<open>
  \<open>getFields\<close> and \<open>getTypes\<close> call themselves once per selected index, and each call
  expands its argument again: when an index name is also an alias, the inner call is a
  multi-index call of its own. The first argument bounds the depth of the calls.
  A call has one of three outcomes:
  \<^item> \<open>Returns v\<close>: it returns \<open>v\<close>;
  \<^item> \<open>TooDeep\<close>: the chain of calls is deeper than the bound (in JavaScript, a call
    that never returns normally);
  \<^item> \<open>Foreign\<close>: where it expects names, a type map or a field list it has an
    inherited member of \<^verbatim>\<open>Object.prototype\<close> in hand. The source then throws a
    \<^verbatim>\<open>TypeError\<close> (\<^verbatim>\<open>indices.includes is not a function\<close>) or goes on with the
    function; the model does not follow it, and claims nothing about it.

  The own values of \<^verbatim>\<open>perIndexTypes\<close> are objects and the field lists are arrays, so
  \<^verbatim>\<open>!typeDict\<close> and \<^verbatim>\<open>f ? f : []\<close> test for \<^verbatim>\<open>undefined\<close> only, and the
  \<^verbatim>\<open>Array.isArray(typeDict)\<close> branch of \<open>getTypes\<close> is never taken.
\<close>

datatype 'a outcome = Returns 'a | TooDeep | Foreign

text \<open>The results of the calls of a \<^verbatim>\<open>forEach\<close>, up to the first that does not return.\<close>

fun collect :: "'a outcome list \<Rightarrow> 'a list outcome" where
  "collect [] = Returns []"
| "collect (Returns x # rs) =
     (case collect rs of Returns xs \<Rightarrow> Returns (x # xs) | TooDeep \<Rightarrow> TooDeep
      | Foreign \<Rightarrow> Foreign)"
| "collect (TooDeep # rs) = TooDeep"
| "collect (Foreign # rs) = Foreign"

text \<open>
  The single-index branch of \<open>getFields\<close>, before the deduplication. The type map of
  an index is an own value of \<^verbatim>\<open>perIndexTypes\<close> or, for an index name that is only an
  inherited name, a function (or \<^verbatim>\<open>Object.prototype\<close>), which has no enumerable
  entries. With a string for \<open>types\<close> the source reads \<^verbatim>\<open>typeDict[types]\<close>.
\<close>

definition typeFields :: "(string \<times> field list) list lookup \<Rightarrow> names \<Rightarrow> field list outcome" where
  "typeFields typeDict types =
     (case typeDict of
        Absent \<Rightarrow> Returns []
      | Inherited \<Rightarrow> (case types of Str t \<Rightarrow> Foreign | _ \<Rightarrow> Returns [])
      | Own typeDict \<Rightarrow>
          (case types of
             Str t \<Rightarrow>
               (case obj_get typeDict t of
                  Own f \<Rightarrow> Returns f | Absent \<Rightarrow> Returns [] | Inherited \<Rightarrow> Foreign)
           | Undefined \<Rightarrow> Returns (concat (map snd typeDict))
           | Null \<Rightarrow> Returns (concat (map snd typeDict))
           | Arr ts \<Rightarrow>
               Returns (concat (map snd
                 (filter (\<lambda>(t, fs). length ts = 0 \<or> t \<in> set ts) typeDict)))))"

fun getFields :: "nat \<Rightarrow> store \<Rightarrow> names \<Rightarrow> names \<Rightarrow> field list outcome" where
  "getFields 0 s indices types = TooDeep"
| "getFields (Suc depth) s indices types =
     (let multi = (\<lambda>selected.
        case collect (map (\<lambda>index. getFields depth s (Str index) types)
               (filter selected (map fst (perIndexTypes s)))) of
          Returns ret \<Rightarrow> Returns (uniqBy (concat ret) field_key)
        | TooDeep \<Rightarrow> TooDeep
        | Foreign \<Rightarrow> Foreign)
      in case expandAliases s indices of
        None \<Rightarrow> Foreign
      | Some (Str index) \<Rightarrow>
          (case typeFields (obj_get (perIndexTypes s) index) types of
             Returns ret \<Rightarrow> Returns (uniqBy ret field_key)
           | TooDeep \<Rightarrow> TooDeep
           | Foreign \<Rightarrow> Foreign)
      | Some Undefined \<Rightarrow> multi (\<lambda>index. True)
      | Some Null \<Rightarrow> multi (\<lambda>index. True)
      | Some (Arr is) \<Rightarrow> multi (\<lambda>index. length is = 0 \<or> index \<in> set is))"

text \<open>
  In the single-index branch of \<open>getTypes\<close> an inherited member in place of the type
  map gives no types: a function is neither an array nor of type \<^verbatim>\<open>object\<close>, and
  \<^verbatim>\<open>Object.prototype\<close> has no enumerable keys.
\<close>

fun getTypes :: "nat \<Rightarrow> store \<Rightarrow> names \<Rightarrow> string list outcome" where
  "getTypes 0 s indices = TooDeep"
| "getTypes (Suc depth) s indices =
     (let multi = (\<lambda>selected.
        case collect (map (\<lambda>index. getTypes depth s (Str index))
               (filter selected (map fst (perIndexTypes s)))) of
          Returns ret \<Rightarrow> Returns (uniq (concat ret))
        | TooDeep \<Rightarrow> TooDeep
        | Foreign \<Rightarrow> Foreign)
      in case expandAliases s indices of
        None \<Rightarrow> Foreign
      | Some (Str index) \<Rightarrow>
          (case obj_get (perIndexTypes s) index of
             Absent \<Rightarrow> Returns []
           | Inherited \<Rightarrow> Returns []
           | Own typeDict \<Rightarrow> Returns (uniq (map fst typeDict)))
      | Some Undefined \<Rightarrow> multi (\<lambda>index. True)
      | Some Null \<Rightarrow> multi (\<lambda>index. True)
      | Some (Arr is) \<Rightarrow> multi (\<lambda>index. index \<in> set is))"

text \<open>\<open>includeAliases\<close> is \<open>None\<close> when the argument is omitted.\<close>

definition getIndices :: "store \<Rightarrow> bool option \<Rightarrow> string list" where
  "getIndices s includeAliases =
     map fst (perIndexTypes s)
     @ (if (case includeAliases of None \<Rightarrow> True | Some b \<Rightarrow> b)
        then map fst (perAliasIndices s) else [])"

subsection \<open>Loaders\<close>

definition loadTemplates :: "json option \<Rightarrow> store \<Rightarrow> store" where
  "loadTemplates templatesObject s =
     s\<lparr>templates :=
        Object_keys (case templatesObject of Some t \<Rightarrow> t | None \<Rightarrow> JObject [])\<rparr>"

definition normalizeIndexMapping :: "json \<Rightarrow> (string \<times> field list) list" where
  "normalizeIndexMapping indexMapping =
     (let indexMapping =
        (case when_truthy (get_prop indexMapping ''mappings'') of
           Some m \<Rightarrow> if length (Object_keys indexMapping) = 1 then m else indexMapping
         | None \<Rightarrow> indexMapping)
      in fold (\<lambda>(typeName, typeMapping) normalizedIndexMappings.
           if typeName = ''properties''
           then obj_set normalizedIndexMappings typeName
                  (getFieldNamesFromProperties (Some typeMapping))
           else obj_set normalizedIndexMappings typeName [])
         (Object_entries indexMapping) [])"

definition loadMappings :: "json \<Rightarrow> store \<Rightarrow> store" where
  "loadMappings mappings s =
     fold (\<lambda>(index, indexMapping) s.
        s\<lparr>perIndexTypes := obj_set (perIndexTypes s) index (normalizeIndexMapping indexMapping)\<rparr>)
       (Object_entries mappings) (s\<lparr>perIndexTypes := []\<rparr>)"

definition recordAlias :: "string \<Rightarrow> string \<Rightarrow> store \<Rightarrow> store" where
  "recordAlias index alias s =
     (if alias = index then s
      else s\<lparr>perAliasIndices :=
        obj_set (perAliasIndices s) alias
          ((case map_of (perAliasIndices s) alias of Some curAliases \<Rightarrow> curAliases | None \<Rightarrow> [])
           @ [index])\<rparr>)"

definition loadIndexAliases :: "string \<times> json \<Rightarrow> store \<Rightarrow> store" where
  "loadIndexAliases entry s =
     (case entry of (index, omdexAliases) \<Rightarrow>
        fold (recordAlias index)
          (Object_keys (case when_truthy (get_prop omdexAliases ''aliases'') of
                          Some a \<Rightarrow> a | None \<Rightarrow> JObject []))
          (s\<lparr>perIndexTypes :=
              obj_set (perIndexTypes s) index
                (case map_of (perIndexTypes s) index of Some t \<Rightarrow> t | None \<Rightarrow> [])\<rparr>))"

definition loadAliases :: "json \<Rightarrow> store \<Rightarrow> store" where
  "loadAliases aliases s =
     (let s = fold loadIndexAliases (Object_entries aliases) (s\<lparr>perAliasIndices := []\<rparr>)
      in s\<lparr>perAliasIndices := obj_set (perAliasIndices s) ''_all'' (getIndices s (Some False))\<rparr>)"

definition clear :: "store \<Rightarrow> store" where
  "clear s = s\<lparr>perIndexTypes := [], perAliasIndices := [], templates := []\<rparr>"

subsection \<open>The poller: fetching\<close>

text \<open>
  The transport \<^verbatim>\<open>opensearch.send\<close> is a parameter: for a path it gives the outcome of
  the promise it returns. A promise is rejected, or fulfilled with \<^verbatim>\<open>undefined\<close>
  (\<open>None\<close>) or with an object, of which only the property \<^verbatim>\<open>body\<close> is read.
\<close>

datatype response = Response (body: "json option")

datatype promise = Rejected | Fulfilled "response option"

datatype settingsKey = Fields | Indices | Templates

text \<open>
  A value of \<^verbatim>\<open>settingsToRetrieve[settingsKey]\<close> is \<open>Some True\<close>, \<open>Some False\<close>, or
  \<open>None\<close> for anything that is neither \<^verbatim>\<open>true\<close> nor \<^verbatim>\<open>false\<close>.
\<close>

type_synonym settingsToRetrieve = "settingsKey \<Rightarrow> bool option"

fun settingKeyToPathMap :: "settingsKey \<Rightarrow> string" where
  "settingKeyToPathMap Fields = ''_mapping''"
| "settingKeyToPathMap Indices = ''_aliases''"
| "settingKeyToPathMap Templates = ''_template''"

definition retrieveSettings ::
  "(string \<Rightarrow> promise) \<Rightarrow> settingsKey \<Rightarrow> settingsToRetrieve \<Rightarrow> promise" where
  "retrieveSettings send settingsKey settingsToRetrieve =
     (if settingsToRetrieve settingsKey = Some True
      then send (settingKeyToPathMap settingsKey)
      else if settingsToRetrieve settingsKey = Some False
      then Fulfilled (Some (Response None))
      else Fulfilled None)"

text \<open>
  \<^verbatim>\<open>const { body: x } = await p\<close>: \<open>None\<close> when the enclosing async function rejects (the
  promise is rejected, or it is fulfilled with \<^verbatim>\<open>undefined\<close> and the destructuring
  throws), else the value of \<^verbatim>\<open>body\<close>.
\<close>

fun await_body :: "promise \<Rightarrow> json option option" where
  "await_body Rejected = None"
| "await_body (Fulfilled None) = None"
| "await_body (Fulfilled (Some r)) = Some (body r)"

text \<open>
  Each of the three async functions gives the store it leaves when it settles; one that
  rejects leaves the store as it found it. The warning on the console is not part of
  the state.
\<close>

definition retrieveMappings ::
  "(string \<Rightarrow> promise) \<Rightarrow> settingsToRetrieve \<Rightarrow> store \<Rightarrow> store" where
  "retrieveMappings send settingsToRetrieve s =
     (case await_body (retrieveSettings send Fields settingsToRetrieve) of
        None \<Rightarrow> s
      | Some mappings \<Rightarrow>
          (case when_truthy mappings of
             None \<Rightarrow> s
           | Some mappings \<Rightarrow>
               (let maxMappingSize = (length (Object_keys mappings) > 10 * 1024 * 1024);
                    mappingsResponse = (if maxMappingSize then JString ''{}'' else mappings)
                in loadMappings mappingsResponse s)))"

definition retrieveAliases ::
  "(string \<Rightarrow> promise) \<Rightarrow> settingsToRetrieve \<Rightarrow> store \<Rightarrow> store" where
  "retrieveAliases send settingsToRetrieve s =
     (case await_body (retrieveSettings send Indices settingsToRetrieve) of
        None \<Rightarrow> s
      | Some aliases \<Rightarrow>
          (case when_truthy aliases of None \<Rightarrow> s | Some aliases \<Rightarrow> loadAliases aliases s))"

definition retrieveTemplates ::
  "(string \<Rightarrow> promise) \<Rightarrow> settingsToRetrieve \<Rightarrow> store \<Rightarrow> store" where
  "retrieveTemplates send settingsToRetrieve s =
     (case await_body (retrieveSettings send Templates settingsToRetrieve) of
        None \<Rightarrow> s
      | Some templatesBody \<Rightarrow>
          (case when_truthy templatesBody of
             None \<Rightarrow> s
           | Some templatesBody \<Rightarrow> loadTemplates (Some templatesBody) s))"

text \<open>
  One poll cycle of \<open>retrieveAutoCompleteInfo\<close>, up to the moment
  \<^verbatim>\<open>Promise.allSettled\<close> resolves: the three functions run to completion one at a time,
  in the order \<open>settled\<close> in which their fetches come back.
\<close>

fun retrieveSection ::
  "(string \<Rightarrow> promise) \<Rightarrow> settingsToRetrieve \<Rightarrow> settingsKey \<Rightarrow> store \<Rightarrow> store" where
  "retrieveSection send settingsToRetrieve Fields = retrieveMappings send settingsToRetrieve"
| "retrieveSection send settingsToRetrieve Indices = retrieveAliases send settingsToRetrieve"
| "retrieveSection send settingsToRetrieve Templates = retrieveTemplates send settingsToRetrieve"

definition poll_cycle ::
  "settingsKey list \<Rightarrow> (string \<Rightarrow> promise) \<Rightarrow> settingsToRetrieve \<Rightarrow> store \<Rightarrow> store" where
  "poll_cycle settled send settingsToRetrieve s =
     fold (retrieveSection send settingsToRetrieve) settled s"

subsection \<open>The poller: scheduling\<close>

text \<open>
  The timer side of \<open>retrieveAutoCompleteInfo\<close>. \<open>timers\<close> are the timeouts of the host
  that are set and have neither fired nor been cleared; \<open>cycles\<close> counts the calls whose
  \<^verbatim>\<open>Promise.allSettled(...).then\<close> callback has not run yet; \<open>nextTimer\<close> is the handle
  the next \<^verbatim>\<open>setTimeout\<close> returns (handles are positive, hence truthy).
\<close>

record poller =
  pollTimeoutId :: "nat option"
  timers :: "nat list"
  cycles :: nat
  nextTimer :: nat

definition initial_poller :: poller where
  "initial_poller = \<lparr>pollTimeoutId = None, timers = [], cycles = 0, nextTimer = 1\<rparr>"

definition clearSubscriptions :: "poller \<Rightarrow> poller" where
  "clearSubscriptions p =
     (case pollTimeoutId p of
        None \<Rightarrow> p
      | Some t \<Rightarrow> if t = 0 then p else p\<lparr>timers := removeAll t (timers p)\<rparr>)"

text \<open>The synchronous part of a call: cancel, then start the three fetches.\<close>

definition retrieveAutoCompleteInfo :: "poller \<Rightarrow> poller" where
  "retrieveAutoCompleteInfo p = (clearSubscriptions p)\<lparr>cycles := cycles p + 1\<rparr>"

text \<open>The \<^verbatim>\<open>then\<close> callback of a cycle: schedule the next request.\<close>

definition allSettled_then :: "poller \<Rightarrow> poller" where
  "allSettled_then p =
     p\<lparr>pollTimeoutId := Some (nextTimer p), timers := timers p @ [nextTimer p],
       cycles := cycles p - 1, nextTimer := nextTimer p + 1\<rparr>"

text \<open>The timeout callback; \<open>polling\<close> is what \<^verbatim>\<open>settings.getPolling()\<close> returns then.\<close>

definition timeout_fires :: "nat \<Rightarrow> bool \<Rightarrow> poller \<Rightarrow> poller" where
  "timeout_fires t polling p =
     (let p = p\<lparr>timers := removeAll t (timers p)\<rparr>
      in if polling then retrieveAutoCompleteInfo p else p)"

datatype event = Call | Settled | Fires nat bool

fun step :: "event \<Rightarrow> poller \<Rightarrow> poller option" where
  "step Call p = Some (retrieveAutoCompleteInfo p)"
| "step Settled p = (if cycles p > 0 then Some (allSettled_then p) else None)"
| "step (Fires t polling) p =
     (if t \<in> set (timers p) then Some (timeout_fires t polling p) else None)"

fun run :: "event list \<Rightarrow> poller \<Rightarrow> poller option" where
  "run [] p = Some p"
| "run (e # es) p = (case step e p of None \<Rightarrow> None | Some p' \<Rightarrow> run es p')"

section \<open>Properties\<close>

subsection \<open>Objects\<close>

lemma map_of_replace_value:
  "map_of (replace_value k v obj) k' =
     (if k' = k then (if map_of obj k = None then None else Some v) else map_of obj k')"
  by (induction obj) auto

lemma map_of_insert_index:
  "map_of obj k = None \<Longrightarrow>
   map_of (insert_index k v obj) k' = (if k' = k then Some v else map_of obj k')"
  by (induction obj) (auto split: if_splits)

lemma map_of_obj_set:
  "map_of (obj_set obj k v) k' = (if k' = k then Some v else map_of obj k')"
proof (cases "map_of obj k")
  case None
  then have "k \<notin> set (map fst obj)" by (simp add: map_of_eq_None_iff)
  with None show ?thesis
    by (auto simp: obj_set_def map_of_insert_index map_add_def split: option.splits)
next
  case (Some w)
  then have "k \<in> set (map fst obj)" by (metis map_of_eq_None_iff option.distinct(1) set_map)
  with Some show ?thesis
    by (simp add: obj_set_def map_of_replace_value)
qed

lemma keys_replace_value: "map fst (replace_value k v obj) = map fst obj"
  by (induction obj) auto

lemma keys_insert_index: "set (map fst (insert_index k v obj)) = insert k (set (map fst obj))"
  by (induction obj) auto

lemma keys_obj_set: "set (map fst (obj_set obj k v)) = insert k (set (map fst obj))"
proof (cases "k \<in> set (map fst obj)")
  case True
  then show ?thesis
    by (simp only: obj_set_def if_True keys_replace_value) blast
next
  case False
  then show ?thesis
    by (cases "is_array_index k") (simp_all only: obj_set_def if_False if_True keys_insert_index, simp)
qed

subsection \<open>expandAliases\<close>

lemma reduce_unique_remdups_adj:
  "reduce_unique prev xs =
     (case prev of None \<Rightarrow> remdups_adj xs | Some a \<Rightarrow> tl (remdups_adj (a # xs)))"
proof (induction xs arbitrary: prev)
  case Nil
  then show ?case by (simp split: option.splits)
next
  case (Cons x xs)
  show ?case
    by (cases prev) (simp_all add: Cons.IH)
qed

lemma distinct_remdups_adj_sorted:
  "sorted xs \<Longrightarrow> distinct (remdups_adj (xs :: 'a :: linorder list))"
proof (induction xs rule: remdups_adj.induct)
  case (3 x y xs)
  show ?case
  proof (cases "x = y")
    case True
    with 3 show ?thesis by simp
  next
    case False
    with "3.prems" have "x \<notin> set (y # xs)" by auto
    with False 3 show ?thesis by simp
  qed
qed simp_all

lemma reduce_unique_sorted:
  assumes "sorted xs"
  shows "reduce_unique None xs = sorted_list_of_set (set xs)"
proof -
  have "reduce_unique None xs = remdups_adj xs"
    by (simp add: reduce_unique_remdups_adj)
  moreover have "sorted (remdups_adj xs)" "distinct (remdups_adj xs)"
    using assms by (simp_all add: distinct_remdups_adj_sorted)
  ultimately show ?thesis
    by (metis remdups_adj_set sorted_distinct_set_unique sorted_sorted_list_of_set
        distinct_sorted_list_of_set set_sorted_list_of_set List.finite_set)
qed

text \<open>
  What the specification says the expansion computes: each entry resolves to the index
  list of the alias of that name, or to itself; the result is built from the names the
  entries resolve to, as one sorted list without duplicates.
\<close>

definition resolve :: "store \<Rightarrow> string \<Rightarrow> string list" where
  "resolve s x = (case map_of (perAliasIndices s) x of Some indices \<Rightarrow> indices | None \<Rightarrow> [x])"

definition resolved_names :: "store \<Rightarrow> string list \<Rightarrow> string list" where
  "resolved_names s xs = sorted_list_of_set (set (concat (map (resolve s) xs)))"

text \<open>
  An entry is no alias of the store, and yet \<^verbatim>\<open>perAliasIndices[entry]\<close> is not
  \<^verbatim>\<open>undefined\<close>: the entry names a member of \<^verbatim>\<open>Object.prototype\<close>.
\<close>

definition hits_inherited :: "store \<Rightarrow> string list \<Rightarrow> bool" where
  "hits_inherited s xs = list_ex (\<lambda>x. obj_get (perAliasIndices s) x = Inherited) xs"

lemma substitute_resolve:
  "substitute s x =
     (if obj_get (perAliasIndices s) x = Inherited then None else Some (resolve s x))"
  by (simp add: substitute_def resolve_def obj_get_def split: option.splits)

lemma those_substitute:
  "those (map (substitute s) xs) =
     (if hits_inherited s xs then None else Some (map (resolve s) xs))"
  by (induction xs) (simp_all add: hits_inherited_def substitute_resolve)

lemma expand_list_resolved:
  "expand_list s xs =
     (if hits_inherited s xs then None
      else Some (if length (resolved_names s xs) > 1 then Arr (resolved_names s xs)
                 else case resolved_names s xs of [] \<Rightarrow> Undefined | r # _ \<Rightarrow> Str r))"
  by (simp add: expand_list_def those_substitute resolved_names_def reduce_unique_sorted Let_def)

text \<open>
  Claim C3, as amended. \<open>expandAliases\<close> returns \<^verbatim>\<open>undefined\<close>, \<^verbatim>\<open>null\<close> and the empty
  string unchanged; the empty list is not returned unchanged, it gives \<^verbatim>\<open>undefined\<close>.
  A non-empty string is expanded as the one-element list of it. For a list none of
  whose entries only names a member of \<^verbatim>\<open>Object.prototype\<close>, with the sorted
  duplicate-free list of the names its entries resolve to, the result is that list
  when it has more than one element, its single element unwrapped when it has exactly
  one, and \<^verbatim>\<open>undefined\<close> when it has none. For a list with an entry that only names a
  member of \<^verbatim>\<open>Object.prototype\<close>, the result is or holds that member: it is none of
  these.
\<close>

theorem expandAliases_output_contract:
  "expandAliases s Undefined = Some Undefined \<and>
   expandAliases s Null = Some Null \<and>
   expandAliases s (Str []) = Some (Str []) \<and>
   expandAliases s (Arr []) = Some Undefined \<and>
   expandAliases s (Str (c # cs)) = expandAliases s (Arr [c # cs]) \<and>
   expandAliases s (Arr xs) =
     (if hits_inherited s xs then None
      else Some (if length (resolved_names s xs) > 1 then Arr (resolved_names s xs)
                 else case resolved_names s xs of [] \<Rightarrow> Undefined | r # _ \<Rightarrow> Str r))"
  by (simp add: expandAliases_def expand_list_resolved)
    (simp add: resolved_names_def hits_inherited_def)

text \<open>
  An entry that only names a member of \<^verbatim>\<open>Object.prototype\<close>: the source returns the
  function \<^verbatim>\<open>Object\<close> for \<open>constructor\<close>, which is no name.
\<close>

lemma expandAliases_inherited_name:
  "expandAliases initial_store (Str ''constructor'') = None"
  by (simp add: expandAliases_def expand_list_def substitute_def obj_get_def initial_store_def
      inherited_def Object_prototype_names_def)

text \<open>
  Claim C3 as stated fails on the empty list: it is not falsy, so it is expanded, and
  the result is \<^verbatim>\<open>undefined\<close>, not the list.
\<close>

theorem expandAliases_empty_list_not_unchanged:
  "expandAliases initial_store (Arr []) \<noteq> Some (Arr [])"
  by (simp add: expandAliases_def expand_list_def)

text \<open>
  No index name listed under an alias is itself an alias or the name of a member of
  \<^verbatim>\<open>Object.prototype\<close>: the substitution of \<open>expandAliases\<close> is one level deep, and on
  such a store one level is all there is.
\<close>

definition aliases_flat :: "store \<Rightarrow> bool" where
  "aliases_flat s =
     list_all (\<lambda>(alias, indices).
         list_all (\<lambda>i. obj_get (perAliasIndices s) i = Absent) indices)
       (perAliasIndices s)"

lemma obj_get_Absent:
  "obj_get obj k = Absent \<longleftrightarrow> map_of obj k = None \<and> \<not> inherited k"
  by (simp add: obj_get_def split: option.splits)

lemma resolve_Absent: "obj_get (perAliasIndices s) y = Absent \<Longrightarrow> resolve s y = [y]"
  by (simp add: resolve_def obj_get_Absent)

lemma resolve_fixed:
  assumes "aliases_flat s" and "obj_get (perAliasIndices s) x \<noteq> Inherited"
    and "y \<in> set (resolve s x)"
  shows "obj_get (perAliasIndices s) y = Absent"
proof (cases "map_of (perAliasIndices s) x")
  case None
  with assms(2,3) show ?thesis
    by (simp add: resolve_def obj_get_def split: if_splits)
next
  case (Some indices)
  then have "(x, indices) \<in> set (perAliasIndices s)" by (rule map_of_SomeD)
  with assms(1) have "list_all (\<lambda>i. obj_get (perAliasIndices s) i = Absent) indices"
    by (auto simp: aliases_flat_def list_all_iff)
  with assms(3) Some show ?thesis by (simp add: resolve_def list_all_iff)
qed

lemma concat_map_singletons:
  "(\<And>y. y \<in> set ys \<Longrightarrow> f y = [y]) \<Longrightarrow> concat (map f ys) = ys"
  by (induction ys) simp_all

lemma resolved_names_fixed:
  assumes "aliases_flat s" and "\<not> hits_inherited s xs"
  shows "\<not> hits_inherited s (resolved_names s xs) \<and>
    resolved_names s (resolved_names s xs) = resolved_names s xs"
proof -
  have absent: "obj_get (perAliasIndices s) y = Absent" if "y \<in> set (resolved_names s xs)" for y
  proof -
    from that obtain x where x: "x \<in> set xs" "y \<in> set (resolve s x)"
      by (auto simp: resolved_names_def)
    from assms(2) x(1) have "obj_get (perAliasIndices s) x \<noteq> Inherited"
      by (auto simp: hits_inherited_def list_ex_iff)
    with assms(1) x(2) show ?thesis by (intro resolve_fixed)
  qed
  then have "\<not> hits_inherited s (resolved_names s xs)"
    by (auto simp: hits_inherited_def list_ex_iff)
  moreover from absent have "concat (map (resolve s) (resolved_names s xs)) = resolved_names s xs"
    by (intro concat_map_singletons resolve_Absent)
  then have "resolved_names s (resolved_names s xs) = resolved_names s xs"
    by (simp add: resolved_names_def[of s "resolved_names s xs"]) (simp add: resolved_names_def)
  ultimately show ?thesis by simp
qed

text \<open>
  Claim C8, as amended. On a store where no index name listed under an alias is itself
  an alias or the name of a member of \<^verbatim>\<open>Object.prototype\<close>, a list that
  \<open>expandAliases\<close> returned is a fixed point of it: expanding it again returns the
  same list, hence the same set of names.
\<close>

theorem expandAliases_idempotent:
  assumes "aliases_flat s" and "expandAliases s x = Some (Arr ys)"
  shows "expandAliases s (Arr ys) = Some (Arr ys)"
proof -
  have ex: "\<exists>xs. expand_list s xs = Some (Arr ys)"
    using assms(2) by (cases x) (auto simp: expandAliases_def split: if_splits)
  then obtain xs where xs: "expand_list s xs = Some (Arr ys)" ..
  then have h: "\<not> hits_inherited s xs" and ys: "ys = resolved_names s xs"
    and len: "length ys > 1"
    by (auto simp: expand_list_resolved split: if_splits list.splits)
  from assms(1) h have "\<not> hits_inherited s ys \<and> resolved_names s ys = ys"
    unfolding ys by (rule resolved_names_fixed)
  with len show ?thesis
    by (simp add: expandAliases_def expand_list_resolved)
qed

definition flat_store :: store where
  "flat_store = \<lparr>perIndexTypes = [],
     perAliasIndices = [(''a'', [''c'', ''b''])], templates = []\<rparr>"

theorem expandAliases_idempotent_witness:
  "aliases_flat flat_store \<and>
   expandAliases flat_store (Str ''a'') = Some (Arr [''b'', ''c'']) \<and>
   expandAliases flat_store (Arr [''b'', ''c'']) = Some (Arr [''b'', ''c''])"
proof -
  have h1: "aliases_flat flat_store"
    by (simp add: aliases_flat_def flat_store_def obj_get_def inherited_def
        Object_prototype_names_def)
  have h2: "expandAliases flat_store (Str ''a'') = Some (Arr [''b'', ''c''])"
    by (simp add: flat_store_def expandAliases_def expand_list_def substitute_def obj_get_def)
  from expandAliases_idempotent [OF h1 h2] h1 h2 show ?thesis by simp
qed

text \<open>
  Claim C8 as stated fails on a store that \<open>loadAliases\<close> builds when the name \<open>b\<close> is
  both an index under the alias \<open>a\<close> and an alias of its own: the expansion of \<open>a\<close> is
  \<open>[b, c]\<close>, and expanding that gives \<open>[c, d, e]\<close>.
\<close>

definition chained_aliases :: json where
  "chained_aliases = JObject
     [(''b'', JObject [(''aliases'', JObject [(''a'', JObject [])])]),
      (''c'', JObject [(''aliases'', JObject [(''a'', JObject [])])]),
      (''d'', JObject [(''aliases'', JObject [(''b'', JObject [])])]),
      (''e'', JObject [(''aliases'', JObject [(''b'', JObject [])])])]"

lemma loadAliases_chained:
  "perAliasIndices (loadAliases chained_aliases initial_store) =
     [(''a'', [''b'', ''c'']), (''b'', [''d'', ''e'']), (''_all'', [''b'', ''c'', ''d'', ''e''])]"
  by (simp add: chained_aliases_def initial_store_def loadAliases_def loadIndexAliases_def
      recordAlias_def obj_set_def Object_keys_def when_truthy_def getIndices_def
      is_array_index_def is_digit_def)

theorem expandAliases_not_idempotent_chained:
  "expandAliases (loadAliases chained_aliases initial_store) (Str ''a'')
     = Some (Arr [''b'', ''c'']) \<and>
   expandAliases (loadAliases chained_aliases initial_store) (Arr [''b'', ''c''])
     = Some (Arr [''c'', ''d'', ''e'']) \<and>
   ''d'' \<in> set [''c'', ''d'', ''e''] \<and> ''d'' \<notin> set [''b'', ''c'']"
  by (simp add: loadAliases_chained expandAliases_def expand_list_def substitute_def
      obj_get_def inherited_def Object_prototype_names_def)

subsection \<open>The index list\<close>

text \<open>
  Claim C7. Right after \<open>loadAliases\<close> the entry \<^verbatim>\<open>_all\<close> of \<^verbatim>\<open>perAliasIndices\<close> is
  \<open>getIndices(false)\<close>, the list of the index keys of \<^verbatim>\<open>perIndexTypes\<close>; and on every
  store \<open>getIndices(true)\<close> (also \<open>getIndices()\<close>) is that list with the alias names
  appended, so it is at least as long.
\<close>

theorem loadAliases_all_is_getIndices:
  "map_of (perAliasIndices (loadAliases aliases s)) ''_all''
     = Some (getIndices (loadAliases aliases s) (Some False)) \<and>
   getIndices (loadAliases aliases s) (Some False)
     = map fst (perIndexTypes (loadAliases aliases s)) \<and>
   getIndices s' (Some False) = map fst (perIndexTypes s') \<and>
   getIndices s' (Some True) = getIndices s' (Some False) @ map fst (perAliasIndices s') \<and>
   getIndices s' None = getIndices s' (Some True) \<and>
   length (getIndices s' (Some False)) \<le> length (getIndices s' (Some True))"
  by (simp add: loadAliases_def Let_def map_of_obj_set getIndices_def)

subsection \<open>Empty lists as arguments\<close>

lemma expandAliases_plain:
  "obj_get (perAliasIndices s) index = Absent \<Longrightarrow> expandAliases s (Str index) = Some (Str index)"
  by (simp add: expandAliases_def expand_list_def substitute_def)

lemma collect_Returns: "collect (map (\<lambda>x. Returns (f x)) xs) = Returns (map f xs)"
  by (induction xs) simp_all

lemma obj_get_key:
  "k \<in> set (map fst obj) \<Longrightarrow>
   obj_get obj k = Own (case map_of obj k of Some v \<Rightarrow> v | None \<Rightarrow> d)"
  by (cases "map_of obj k") (auto simp: obj_get_def map_of_eq_None_iff)

text \<open>
  The type map of an index, and the fields of a type map that the \<open>types\<close> argument
  selects: those of the one type, of the listed types, or of every type when \<open>types\<close>
  is absent or empty.
\<close>

definition type_map :: "store \<Rightarrow> string \<Rightarrow> (string \<times> field list) list" where
  "type_map s index = (case map_of (perIndexTypes s) index of Some t \<Rightarrow> t | None \<Rightarrow> [])"

definition selected_fields :: "names \<Rightarrow> (string \<times> field list) list \<Rightarrow> field list" where
  "selected_fields types typeDict =
     (case types of
        Str t \<Rightarrow> (case map_of typeDict t of Some f \<Rightarrow> f | None \<Rightarrow> [])
      | Arr ts \<Rightarrow> concat (map snd (filter (\<lambda>(t, fs). ts = [] \<or> t \<in> set ts) typeDict))
      | _ \<Rightarrow> concat (map snd typeDict))"

text \<open>
  No index name is an alias name or the name of a member of \<^verbatim>\<open>Object.prototype\<close>; and
  the \<open>types\<close> argument is not such a name.
\<close>

definition indices_plain :: "store \<Rightarrow> bool" where
  "indices_plain s =
     list_all (\<lambda>index. obj_get (perAliasIndices s) index = Absent) (map fst (perIndexTypes s))"

definition types_plain :: "names \<Rightarrow> bool" where
  "types_plain types = (case types of Str t \<Rightarrow> t \<notin> set Object_prototype_names | _ \<Rightarrow> True)"

lemma typeFields_plain:
  "types_plain types \<Longrightarrow> typeFields (Own typeDict) types = Returns (selected_fields types typeDict)"
  by (cases types)
    (auto simp: typeFields_def selected_fields_def types_plain_def obj_get_def inherited_def
      split: option.splits)

lemma getFields_index_plain:
  assumes "obj_get (perAliasIndices s) index = Absent" and "index \<in> set (map fst (perIndexTypes s))"
    and "types_plain types"
  shows "getFields (Suc depth) s (Str index) types =
    Returns (uniqBy (selected_fields types (type_map s index)) field_key)"
proof -
  from assms(2) have "obj_get (perIndexTypes s) index = Own (type_map s index)"
    unfolding type_map_def by (rule obj_get_key)
  with assms(1,3) show ?thesis
    by (simp add: expandAliases_plain typeFields_plain)
qed

lemma getTypes_index_plain:
  assumes "obj_get (perAliasIndices s) index = Absent" and "index \<in> set (map fst (perIndexTypes s))"
  shows "getTypes (Suc depth) s (Str index) = Returns (uniq (map fst (type_map s index)))"
proof -
  from assms(2) have "obj_get (perIndexTypes s) index = Own (type_map s index)"
    unfolding type_map_def by (rule obj_get_key)
  with assms(1) show ?thesis
    by (simp add: expandAliases_plain)
qed

text \<open>
  Claim C10, as amended. \<open>expandAliases\<close> of the empty list is \<^verbatim>\<open>undefined\<close>, not the
  empty list, so \<open>getFields([], types)\<close> and \<open>getTypes([])\<close> have the outcome of
  \<open>getFields(undefined, types)\<close> and \<open>getTypes(undefined)\<close>, on every store and at every
  depth of calls. On a store where no index name is an alias name or the name of a
  member of \<^verbatim>\<open>Object.prototype\<close> they return, two levels of calls deep:
  \<open>getFields([], types)\<close> (for \<open>types\<close> that is not such a name) the deduplicated
  concatenation, over every index key of \<^verbatim>\<open>perIndexTypes\<close>, of the deduplicated fields
  that \<open>types\<close> selects in the type map of the index, and \<open>getTypes([])\<close> the
  deduplicated concatenation of the type names of every index.
\<close>

theorem empty_list_means_all:
  "expandAliases s (Arr []) = Some Undefined \<and>
   getFields depth s (Arr []) types = getFields depth s Undefined types \<and>
   getTypes depth s (Arr []) = getTypes depth s Undefined \<and>
   (indices_plain s \<longrightarrow> types_plain types \<longrightarrow>
      getFields (Suc (Suc depth)) s (Arr []) types =
        Returns (uniqBy
          (concat (map (\<lambda>index. uniqBy (selected_fields types (type_map s index)) field_key)
             (map fst (perIndexTypes s))))
          field_key)) \<and>
   (indices_plain s \<longrightarrow>
      getTypes (Suc (Suc depth)) s (Arr []) =
        Returns (uniq
          (concat (map (\<lambda>index. uniq (map fst (type_map s index)))
             (map fst (perIndexTypes s))))))"
proof -
  have e: "expandAliases s (Arr []) = Some Undefined" "expandAliases s Undefined = Some Undefined"
    by (simp_all add: expandAliases_def expand_list_def)
  have f: "getFields depth s (Arr []) types = getFields depth s Undefined types"
    by (cases depth) (simp_all add: e)
  have t: "getTypes depth s (Arr []) = getTypes depth s Undefined"
    by (cases depth) (simp_all add: e)
  have f': "getFields (Suc (Suc depth)) s (Arr []) types =
        Returns (uniqBy
          (concat (map (\<lambda>index. uniqBy (selected_fields types (type_map s index)) field_key)
             (map fst (perIndexTypes s))))
          field_key)"
    if p: "indices_plain s" "types_plain types"
  proof -
    have "map (\<lambda>index. getFields (Suc depth) s (Str index) types) (map fst (perIndexTypes s))
      = map (\<lambda>index. Returns (uniqBy (selected_fields types (type_map s index)) field_key))
          (map fst (perIndexTypes s))"
      using p unfolding indices_plain_def list_all_iff
      by (intro map_cong refl getFields_index_plain) auto
    then have "collect (map (\<lambda>index. getFields (Suc depth) s (Str index) types)
          (map fst (perIndexTypes s)))
      = Returns (map (\<lambda>index. uniqBy (selected_fields types (type_map s index)) field_key)
          (map fst (perIndexTypes s)))"
      by (simp only: collect_Returns)
    then show ?thesis
      by (simp add: e del: getFields.simps add: getFields.simps(2) [of "Suc depth"])
  qed
  have t': "getTypes (Suc (Suc depth)) s (Arr []) =
        Returns (uniq
          (concat (map (\<lambda>index. uniq (map fst (type_map s index)))
             (map fst (perIndexTypes s)))))"
    if p: "indices_plain s"
  proof -
    have "map (\<lambda>index. getTypes (Suc depth) s (Str index)) (map fst (perIndexTypes s))
      = map (\<lambda>index. Returns (uniq (map fst (type_map s index)))) (map fst (perIndexTypes s))"
      using p unfolding indices_plain_def list_all_iff
      by (intro map_cong refl getTypes_index_plain) auto
    then have "collect (map (\<lambda>index. getTypes (Suc depth) s (Str index))
          (map fst (perIndexTypes s)))
      = Returns (map (\<lambda>index. uniq (map fst (type_map s index))) (map fst (perIndexTypes s)))"
      by (simp only: collect_Returns)
    then show ?thesis
      by (simp add: e del: getTypes.simps add: getTypes.simps(2) [of "Suc depth"])
  qed
  from e(1) f t f' t' show ?thesis by blast
qed

definition one_index_store :: store where
  "one_index_store = \<lparr>perIndexTypes =
       [(''idx'', [(''properties'', [\<lparr>name = JString ''f'', type = Some (JString ''text'')\<rparr>])])],
     perAliasIndices = [(''_all'', [''idx''])], templates = []\<rparr>"

theorem empty_list_means_all_witness:
  "indices_plain one_index_store \<and> types_plain Undefined \<and>
   getFields 2 one_index_store (Arr []) Undefined =
     Returns [\<lparr>name = JString ''f'', type = Some (JString ''text'')\<rparr>] \<and>
   getTypes 2 one_index_store (Arr []) = Returns [''properties'']"
proof -
  have h: "indices_plain one_index_store" "types_plain Undefined"
    by (simp_all add: indices_plain_def types_plain_def one_index_store_def obj_get_def
        inherited_def Object_prototype_names_def)
  have two: "(2::nat) = Suc (Suc 0)" by simp
  from h empty_list_means_all [of one_index_store 0 Undefined]
  have "getFields 2 one_index_store (Arr []) Undefined =
        Returns (uniqBy
          (concat (map (\<lambda>index. uniqBy (selected_fields Undefined (type_map one_index_store index)) field_key)
             (map fst (perIndexTypes one_index_store))))
          field_key) \<and>
     getTypes 2 one_index_store (Arr []) =
        Returns (uniq
          (concat (map (\<lambda>index. uniq (map fst (type_map one_index_store index)))
             (map fst (perIndexTypes one_index_store)))))"
    unfolding two by blast
  with h show ?thesis
    by (simp add: one_index_store_def type_map_def selected_fields_def uniqBy_def uniq_def
        field_key_def)
qed

text \<open>
  Claim C10 as stated fails on a store that the loaders build when the index \<open>b\<close> is
  also an alias of the index \<open>d\<close>: the inner call for \<open>b\<close> expands it to \<open>d\<close>, so
  \<open>getTypes([])\<close> never returns the type \<open>tb\<close> of \<open>b\<close>, and \<open>getFields([])\<close> never the
  field \<open>fb\<close> of \<open>b\<close>.
\<close>

definition shadowed_mappings :: json where
  "shadowed_mappings = JObject
     [(''b'', JObject [(''properties'', JObject [(''fb'', JObject [(''type'', JString ''text'')])]),
                      (''tb'', JObject [])]),
      (''d'', JObject [(''properties'', JObject [(''fd'', JObject [(''type'', JString ''keyword'')])])])]"

definition shadowed_aliases :: json where
  "shadowed_aliases = JObject
     [(''b'', JObject []),
      (''d'', JObject [(''aliases'', JObject [(''b'', JObject [])])])]"

definition shadowed_store :: store where
  "shadowed_store = loadAliases shadowed_aliases (loadMappings shadowed_mappings initial_store)"

lemma shadowed_store_value:
  "shadowed_store = \<lparr>perIndexTypes =
       [(''b'', [(''properties'', [\<lparr>name = JString ''fb'', type = Some (JString ''text'')\<rparr>]),
                (''tb'', [])]),
        (''d'', [(''properties'', [\<lparr>name = JString ''fd'', type = Some (JString ''keyword'')\<rparr>])])],
     perAliasIndices = [(''b'', [''d'']), (''_all'', [''b'', ''d''])], templates = []\<rparr>"
  by code_simp

theorem empty_list_misses_shadowed_index:
  "map_of (perIndexTypes shadowed_store) ''b'' =
     Some [(''properties'', [\<lparr>name = JString ''fb'', type = Some (JString ''text'')\<rparr>]),
           (''tb'', [])] \<and>
   getTypes 2 shadowed_store (Arr []) = Returns [''properties''] \<and>
   getFields 2 shadowed_store (Arr []) Undefined =
     Returns [\<lparr>name = JString ''fd'', type = Some (JString ''keyword'')\<rparr>]"
  by (simp only: shadowed_store_value) code_simp

subsection \<open>Self-aliases\<close>

definition no_self_alias :: "store \<Rightarrow> bool" where
  "no_self_alias s = (\<forall>alias indices. map_of (perAliasIndices s) alias = Some indices \<longrightarrow> alias \<notin> set indices)"

lemma no_self_alias_recordAlias:
  "no_self_alias s \<Longrightarrow> no_self_alias (recordAlias index alias s)"
  unfolding no_self_alias_def
  by (auto simp: recordAlias_def map_of_obj_set split: if_splits option.splits)

lemma no_self_alias_fold_recordAlias:
  "no_self_alias s \<Longrightarrow> no_self_alias (fold (recordAlias index) as s)"
  by (induction as arbitrary: s) (simp_all add: no_self_alias_recordAlias)

lemma no_self_alias_perIndexTypes_update:
  "no_self_alias (s\<lparr>perIndexTypes := t\<rparr>) = no_self_alias s"
  by (simp add: no_self_alias_def)

lemma no_self_alias_loadIndexAliases:
  "no_self_alias s \<Longrightarrow> no_self_alias (loadIndexAliases entry s)"
  by (cases entry)
    (simp add: loadIndexAliases_def no_self_alias_fold_recordAlias
      no_self_alias_perIndexTypes_update)

lemma no_self_alias_fold_loadIndexAliases:
  "no_self_alias s \<Longrightarrow> no_self_alias (fold loadIndexAliases es s)"
  by (induction es arbitrary: s) (simp_all add: no_self_alias_loadIndexAliases)

lemma no_self_alias_recorded:
  "no_self_alias (fold loadIndexAliases (Object_entries aliases) (s\<lparr>perAliasIndices := []\<rparr>))"
  by (rule no_self_alias_fold_loadIndexAliases) (simp add: no_self_alias_def)

text \<open>
  Claim C6. The pass of \<open>loadAliases\<close> over the indices records no alias under its own
  name: no key of the alias map it builds is listed under itself. The assignment of
  \<^verbatim>\<open>_all\<close> that ends \<open>loadAliases\<close> changes no other key, so after \<open>loadAliases\<close>
  no alias other than the reserved \<^verbatim>\<open>_all\<close> (the list of all index names) maps to a
  list that contains it; in particular there is no entry \<open>a \<mapsto> [a]\<close> from an index \<open>a\<close>
  that declares the alias \<open>a\<close>.
\<close>

theorem loadAliases_suppresses_self_alias:
  "(map_of (perAliasIndices
       (fold loadIndexAliases (Object_entries aliases) (s\<lparr>perAliasIndices := []\<rparr>))) a = Some indices
     \<longrightarrow> a \<notin> set indices) \<and>
   (a \<noteq> ''_all'' \<longrightarrow>
      map_of (perAliasIndices (loadAliases aliases s)) a =
      map_of (perAliasIndices
        (fold loadIndexAliases (Object_entries aliases) (s\<lparr>perAliasIndices := []\<rparr>))) a) \<and>
   (a \<noteq> ''_all'' \<longrightarrow> map_of (perAliasIndices (loadAliases aliases s)) a = Some indices
     \<longrightarrow> a \<notin> set indices)"
proof -
  have r: "no_self_alias
      (fold loadIndexAliases (Object_entries aliases) (s\<lparr>perAliasIndices := []\<rparr>))"
    by (rule no_self_alias_recorded)
  have e: "map_of (perAliasIndices (loadAliases aliases s)) a =
      map_of (perAliasIndices
        (fold loadIndexAliases (Object_entries aliases) (s\<lparr>perAliasIndices := []\<rparr>))) a"
    if "a \<noteq> ''_all''"
    using that by (simp add: loadAliases_def Let_def map_of_obj_set)
  from r e show ?thesis
    unfolding no_self_alias_def by metis
qed

definition self_alias_input :: json where
  "self_alias_input =
     JObject [(''a'', JObject [(''aliases'', JObject [(''a'', JObject []), (''b'', JObject [])])])]"

lemma loadAliases_self_alias_input:
  "perAliasIndices (loadAliases self_alias_input initial_store) = [(''b'', [''a'']), (''_all'', [''a''])]"
  by (simp add: self_alias_input_def initial_store_def loadAliases_def loadIndexAliases_def
      recordAlias_def obj_set_def Object_keys_def when_truthy_def getIndices_def
      is_array_index_def is_digit_def)

theorem loadAliases_suppresses_self_alias_witness:
  "''b'' \<noteq> ''_all'' \<and>
   map_of (perAliasIndices (loadAliases self_alias_input initial_store)) ''b'' = Some [''a''] \<and>
   map_of (perAliasIndices (fold loadIndexAliases (Object_entries self_alias_input)
     (initial_store\<lparr>perAliasIndices := []\<rparr>))) ''b'' = Some [''a''] \<and>
   ''b'' \<notin> set [''a''] \<and>
   map_of (perAliasIndices (loadAliases self_alias_input initial_store)) ''a'' = None"
proof -
  have h: "map_of (perAliasIndices (loadAliases self_alias_input initial_store)) ''b'' = Some [''a'']"
      "map_of (perAliasIndices (loadAliases self_alias_input initial_store)) ''a'' = None"
    by (simp_all add: loadAliases_self_alias_input)
  from h loadAliases_suppresses_self_alias [of self_alias_input initial_store "''b''" "[''a'']"]
  show ?thesis
    by simp
qed

subsection \<open>Deduplication of the field list\<close>

lemma keys_uniqBy_seen:
  "k ` set (uniqBy_seen seen xs k) = k ` set xs - set seen"
  by (induction xs arbitrary: seen) auto

lemma distinct_keys_uniqBy_seen:
  "distinct (map k (uniqBy_seen seen xs k))"
proof (induction xs arbitrary: seen)
  case Nil
  show ?case by simp
next
  case (Cons x xs)
  have "k x \<notin> k ` set (uniqBy_seen (seen @ [k x]) xs k)"
    by (simp add: keys_uniqBy_seen)
  with Cons show ?case by simp
qed

lemma first_uniqBy_seen:
  "f \<in> set (uniqBy_seen seen xs k) \<Longrightarrow> find (\<lambda>g. k g = k f) xs = Some f"
proof (induction xs arbitrary: seen)
  case Nil
  then show ?case by simp
next
  case (Cons x xs)
  show ?case
  proof (cases "k x \<in> set seen")
    case True
    with Cons.prems have f: "f \<in> set (uniqBy_seen seen xs k)" by simp
    then have "k f \<in> k ` set xs - set seen"
      using keys_uniqBy_seen [of k seen xs] by blast
    with True have "k x \<noteq> k f" by auto
    with Cons.IH [OF f] show ?thesis by simp
  next
    case False
    with Cons.prems consider "f = x" | "f \<in> set (uniqBy_seen (seen @ [k x]) xs k)" by auto
    then show ?thesis
    proof cases
      case 1
      then show ?thesis by simp
    next
      case 2
      then have "k f \<in> k ` set xs - set (seen @ [k x])"
        using keys_uniqBy_seen [of k "seen @ [k x]" xs] by blast
      then have "k x \<noteq> k f" by auto
      with Cons.IH [OF 2] show ?thesis by simp
    qed
  qed
qed

lemma subseq_uniqBy_seen: "subseq (uniqBy_seen seen xs k) xs"
  by (induction xs arbitrary: seen) auto

lemma set_uniqBy_seen: "set (uniqBy_seen seen xs k) \<subseteq> set xs"
  by (induction xs arbitrary: seen) auto

lemma uniqBy_inj:
  assumes "inj_on k (set xs)"
  shows "distinct (uniqBy xs k) \<and> set (uniqBy xs k) = set xs"
proof -
  have d: "distinct (uniqBy xs k)"
    using distinct_keys_uniqBy_seen [of k "[]" xs] by (simp add: uniqBy_def distinct_map)
  have sub: "set (uniqBy xs k) \<subseteq> set xs"
    by (simp add: uniqBy_def set_uniqBy_seen)
  have sup: "set xs \<subseteq> set (uniqBy xs k)"
  proof
    fix x assume x: "x \<in> set xs"
    then have "k x \<in> k ` set (uniqBy xs k)"
      using keys_uniqBy_seen [of k "[]" xs] by (simp add: uniqBy_def)
    then obtain y where y: "y \<in> set (uniqBy xs k)" "k y = k x" by auto
    with sub have "y \<in> set xs" by auto
    with assms x y(2) have "y = x" by (auto dest: inj_onD)
    with y(1) show "x \<in> set (uniqBy xs k)" by simp
  qed
  from d sub sup show ?thesis by auto
qed

text \<open>
  A descriptor whose name is a string and whose type is a string without a colon: on
  such descriptors the key \<^verbatim>\<open>name + ':' + type\<close> determines the pair.
\<close>

fun plain :: "json \<Rightarrow> json option \<Rightarrow> bool" where
  "plain (JString n) (Some (JString t)) = (CHR '':'' \<notin> set t)"
| "plain _ _ = False"

definition plain_field :: "field \<Rightarrow> bool" where
  "plain_field f = plain (name f) (type f)"

lemma append_sep_inject:
  "c \<notin> set a \<Longrightarrow> c \<notin> set b \<Longrightarrow> a @ c # x = b @ c # y \<Longrightarrow> a = b \<and> x = y"
proof (induction a arbitrary: b)
  case Nil
  then show ?case by (cases b) auto
next
  case (Cons h a)
  then show ?case by (cases b) auto
qed

lemma sep_append_inject:
  assumes "c \<notin> set t1" "c \<notin> set t2" "n1 @ c # t1 = n2 @ c # t2"
  shows "n1 = n2 \<and> t1 = t2"
proof -
  from assms(3) have "rev (n1 @ c # t1) = rev (n2 @ c # t2)" by simp
  then have "rev t1 @ c # rev n1 = rev t2 @ c # rev n2" by simp
  with assms(1,2) have "rev t1 = rev t2 \<and> rev n1 = rev n2"
    by (intro append_sep_inject [of c]) simp_all
  then show ?thesis by simp
qed

lemma field_key_inj_plain:
  assumes "plain_field f" "plain_field g" "field_key f = field_key g"
  shows "f = g"
proof -
  from assms(1) obtain n t where f: "name f = JString n" "type f = Some (JString t)" "CHR '':'' \<notin> set t"
    unfolding plain_field_def by (auto elim: plain.elims(2))
  from assms(2) obtain n' t' where g: "name g = JString n'" "type g = Some (JString t')" "CHR '':'' \<notin> set t'"
    unfolding plain_field_def by (auto elim: plain.elims(2))
  from assms(3) f g have "n @ CHR '':'' # t = n' @ CHR '':'' # t'"
    by (simp add: field_key_def)
  with f(3) g(3) have "n = n' \<and> t = t'" by (intro sep_append_inject [of "CHR '':''"])
  with f g show ?thesis by (intro field.equality) simp_all
qed

text \<open>The list before the deduplication: the contributions of the fields, in order.\<close>

definition flattened :: "json \<Rightarrow> field list" where
  "flattened properties =
     concat (map (\<lambda>(fieldName, fieldMapping).
         getFieldNamesFromFieldMapping fieldName fieldMapping)
       (Object_entries properties))"

lemma getFieldNamesFromProperties_flattened:
  "getFieldNamesFromProperties (Some properties) = uniqBy (flattened properties) field_key"
  by (simp add: getFieldNamesFromProperties.simps flattened_def)

text \<open>
  Claim C4, as amended. The normalizer removes duplicates by the string
  \<^verbatim>\<open>name + ':' + type\<close>, keeping the first descriptor of each key, in order: the output
  is a subsequence of the flattened list, its keys are distinct and are the keys of
  the flattened list, and each descriptor of it is the first of the flattened list
  with its key. When every descriptor of the flattened list has a string name and a
  string type without a colon, the key stands for the pair (name, type): the output
  has no descriptor twice and has exactly the descriptors of the flattened list.
\<close>

theorem getFieldNamesFromProperties_dedup:
  "getFieldNamesFromProperties (Some properties) = uniqBy (flattened properties) field_key \<and>
   distinct (map field_key (getFieldNamesFromProperties (Some properties))) \<and>
   field_key ` set (getFieldNamesFromProperties (Some properties))
     = field_key ` set (flattened properties) \<and>
   subseq (getFieldNamesFromProperties (Some properties)) (flattened properties) \<and>
   (\<forall>f \<in> set (getFieldNamesFromProperties (Some properties)).
      find (\<lambda>g. field_key g = field_key f) (flattened properties) = Some f) \<and>
   (list_all plain_field (flattened properties) \<longrightarrow>
      distinct (getFieldNamesFromProperties (Some properties)) \<and>
      set (getFieldNamesFromProperties (Some properties)) = set (flattened properties))"
proof -
  let ?flat = "flattened properties"
  have eq: "getFieldNamesFromProperties (Some properties) = uniqBy_seen [] ?flat field_key"
    by (simp add: getFieldNamesFromProperties_flattened uniqBy_def)
  have inj: "inj_on field_key (set ?flat)" if "list_all plain_field ?flat"
    using that by (auto simp: list_all_iff intro!: inj_onI field_key_inj_plain)
  show ?thesis
    unfolding eq
    using distinct_keys_uniqBy_seen [of field_key "[]" ?flat]
      keys_uniqBy_seen [of field_key "[]" ?flat]
      subseq_uniqBy_seen [of "[]" ?flat field_key]
      uniqBy_inj [OF inj]
    by (auto simp: uniqBy_def dest: first_uniqBy_seen)
qed

definition text_properties :: json where
  "text_properties = JObject
     [(''a'', JObject [(''type'', JString ''text'')]),
      (''b'', JObject [(''type'', JString ''text''), (''index_name'', JString ''a'')]),
      (''c'', JObject [(''type'', JString ''keyword'')])]"

lemma flattened_text_properties:
  "flattened text_properties =
     [\<lparr>name = JString ''a'', type = Some (JString ''text'')\<rparr>,
      \<lparr>name = JString ''a'', type = Some (JString ''text'')\<rparr>,
      \<lparr>name = JString ''c'', type = Some (JString ''keyword'')\<rparr>]"
  by code_simp

theorem getFieldNamesFromProperties_dedup_witness:
  "list_all plain_field (flattened text_properties) \<and>
   getFieldNamesFromProperties (Some text_properties) =
     [\<lparr>name = JString ''a'', type = Some (JString ''text'')\<rparr>,
      \<lparr>name = JString ''c'', type = Some (JString ''keyword'')\<rparr>] \<and>
   distinct (getFieldNamesFromProperties (Some text_properties)) \<and>
   set (getFieldNamesFromProperties (Some text_properties)) =
     {\<lparr>name = JString ''a'', type = Some (JString ''text'')\<rparr>,
      \<lparr>name = JString ''c'', type = Some (JString ''keyword'')\<rparr>}"
proof -
  have h: "list_all plain_field (flattened text_properties)"
    by (simp add: flattened_text_properties plain_field_def)
  have v: "getFieldNamesFromProperties (Some text_properties) =
     [\<lparr>name = JString ''a'', type = Some (JString ''text'')\<rparr>,
      \<lparr>name = JString ''c'', type = Some (JString ''keyword'')\<rparr>]"
    by code_simp
  from h getFieldNamesFromProperties_dedup [of text_properties]
  have "distinct (getFieldNamesFromProperties (Some text_properties)) \<and>
    set (getFieldNamesFromProperties (Some text_properties)) = set (flattened text_properties)"
    by blast
  with h v show ?thesis
    by (simp only: flattened_text_properties) simp
qed

text \<open>
  Claim C4 as stated fails where two different pairs have one key: the field \<open>a:b\<close> of
  type \<open>c\<close> and the field \<open>a\<close> of type \<open>b:c\<close> both have the key \<open>a:b:c\<close>, and the second
  is dropped.
\<close>

definition colon_properties :: json where
  "colon_properties = JObject
     [(''a:b'', JObject [(''type'', JString ''c'')]),
      (''a'', JObject [(''type'', JString ''b:c'')])]"

theorem dedup_merges_distinct_pairs:
  "flattened colon_properties =
     [\<lparr>name = JString ''a:b'', type = Some (JString ''c'')\<rparr>,
      \<lparr>name = JString ''a'', type = Some (JString ''b:c'')\<rparr>] \<and>
   getFieldNamesFromProperties (Some colon_properties) =
     [\<lparr>name = JString ''a:b'', type = Some (JString ''c'')\<rparr>]"
  by code_simp

subsection \<open>The path policy\<close>

text \<open>
  The path of a descriptor counts as full when it is \<^verbatim>\<open>"full"\<close> or is falsy (absent,
  or the empty string, or \<^verbatim>\<open>false\<close>): \<^verbatim>\<open>fieldMapping.path || 'full'\<close>.
\<close>

definition path_is_full :: "json \<Rightarrow> bool" where
  "path_is_full fieldMapping =
     (if truthy (get_prop fieldMapping ''path'')
      then get_prop fieldMapping ''path'' = Some (JString ''full'') else True)"

definition prefixed :: "string \<Rightarrow> field \<Rightarrow> field" where
  "prefixed fieldName f = f\<lparr>name := JString (fieldName @ ''.'' @ to_string (Some (name f)))\<rparr>"

lemma applyPathSettings_policy:
  "applyPathSettings fieldName fieldMapping nested =
     (if path_is_full fieldMapping then map (prefixed fieldName) nested else nested)"
  by (cases "get_prop fieldMapping ''path''")
    (auto simp: applyPathSettings_def path_is_full_def when_truthy_def prefixed_def)

definition user_mappings :: json where
  "user_mappings = JObject [(''idx'', JObject [(''properties'',
     JObject [(''user'', JObject [(''properties'',
       JObject [(''name'', JObject [(''type'', JString ''text'')])])])])])]"

lemma normalize_user_mappings:
  "normalizeIndexMapping (JObject [(''properties'',
     JObject [(''user'', JObject [(''properties'',
       JObject [(''name'', JObject [(''type'', JString ''text'')])])])])])
   = [(''properties'', [\<lparr>name = JString ''user.name'', type = Some (JString ''text'')\<rparr>])]"
  by code_simp

lemma loadMappings_user_mappings:
  "loadMappings user_mappings s =
     s\<lparr>perIndexTypes :=
        [(''idx'', [(''properties'',
           [\<lparr>name = JString ''user.name'', type = Some (JString ''text'')\<rparr>])])]\<rparr>"
  by (simp add: loadMappings_def user_mappings_def normalize_user_mappings obj_set_def
      is_array_index_def is_digit_def)

text \<open>
  Claim C5, as amended. For a descriptor that is not disabled: with nested
  \<^verbatim>\<open>properties\<close> its contribution is the normalized nested list, and with multi-fields
  it is the base descriptor followed by the nested list; in both, every nested name is
  prefixed with the field name and a dot when the path is \<^verbatim>\<open>"full"\<close>, absent or
  falsy, and is left as it is when the path is truthy and not \<^verbatim>\<open>"full"\<close>. After
  \<open>loadMappings\<close> of the mapping of the example, on a store where \<open>idx\<close> is not an
  alias, \<open>getFields('idx')\<close> returns exactly the descriptor \<open>user.name\<close> of type \<open>text\<close>.
\<close>

theorem path_policy:
  "(get_prop fieldMapping ''enabled'' \<noteq> Some (JBool False) \<longrightarrow>
    when_truthy (get_prop fieldMapping ''properties'') = Some properties \<longrightarrow>
      getFieldNamesFromFieldMapping fieldName fieldMapping =
        (if path_is_full fieldMapping
         then map (prefixed fieldName) (getFieldNamesFromProperties (Some properties))
         else getFieldNamesFromProperties (Some properties))) \<and>
   (get_prop fieldMapping ''enabled'' \<noteq> Some (JBool False) \<longrightarrow>
    when_truthy (get_prop fieldMapping ''properties'') = None \<longrightarrow>
    when_truthy (get_prop fieldMapping ''fields'') = Some multiFields \<longrightarrow>
      getFieldNamesFromFieldMapping fieldName fieldMapping =
        \<lparr>name = (case when_truthy (get_prop fieldMapping ''index_name'') of
                    Some index_name \<Rightarrow> index_name | None \<Rightarrow> JString fieldName),
         type = get_prop fieldMapping ''type''\<rparr>
        # (if path_is_full fieldMapping
           then map (prefixed fieldName) (flattened multiFields)
           else flattened multiFields)) \<and>
   (map_of (perAliasIndices s) ''idx'' = None \<longrightarrow>
      getFields (Suc depth) (loadMappings user_mappings s) (Str ''idx'') Undefined =
        Returns [\<lparr>name = JString ''user.name'', type = Some (JString ''text'')\<rparr>])"
proof -
  have a: "getFieldNamesFromFieldMapping fieldName fieldMapping =
        (if path_is_full fieldMapping
         then map (prefixed fieldName) (getFieldNamesFromProperties (Some properties))
         else getFieldNamesFromProperties (Some properties))"
    if "get_prop fieldMapping ''enabled'' \<noteq> Some (JBool False)"
      and "when_truthy (get_prop fieldMapping ''properties'') = Some properties"
    using that
    by (subst getFieldNamesFromFieldMapping.simps) (simp add: applyPathSettings_policy)
  have b: "getFieldNamesFromFieldMapping fieldName fieldMapping =
        \<lparr>name = (case when_truthy (get_prop fieldMapping ''index_name'') of
                    Some index_name \<Rightarrow> index_name | None \<Rightarrow> JString fieldName),
         type = get_prop fieldMapping ''type''\<rparr>
        # (if path_is_full fieldMapping
           then map (prefixed fieldName) (flattened multiFields)
           else flattened multiFields)"
    if "get_prop fieldMapping ''enabled'' \<noteq> Some (JBool False)"
      and "when_truthy (get_prop fieldMapping ''properties'') = None"
      and "when_truthy (get_prop fieldMapping ''fields'') = Some multiFields"
    using that
    by (subst getFieldNamesFromFieldMapping.simps)
      (simp add: applyPathSettings_policy flattened_def Let_def split: option.splits)
  have c: "getFields (Suc depth) (loadMappings user_mappings s) (Str ''idx'') Undefined =
        Returns [\<lparr>name = JString ''user.name'', type = Some (JString ''text'')\<rparr>]"
    if "map_of (perAliasIndices s) ''idx'' = None"
  proof -
    have "expandAliases (loadMappings user_mappings s) (Str ''idx'') = Some (Str ''idx'')"
      using that
      by (intro expandAliases_plain)
        (simp add: loadMappings_user_mappings obj_get_def inherited_def
          Object_prototype_names_def)
    then show ?thesis
      by (simp add: loadMappings_user_mappings uniqBy_def typeFields_def obj_get_def)
  qed
  from a b c show ?thesis by blast
qed

definition user_field :: json where
  "user_field = JObject [(''properties'', JObject [(''name'', JObject [(''type'', JString ''text'')])])]"

definition title_field :: json where
  "title_field = JObject [(''type'', JString ''text''),
     (''fields'', JObject [(''raw'', JObject [(''type'', JString ''keyword'')])])]"

theorem path_policy_witness:
  "get_prop user_field ''enabled'' \<noteq> Some (JBool False) \<and>
   path_is_full user_field \<and>
   getFieldNamesFromFieldMapping ''user'' user_field =
     [\<lparr>name = JString ''user.name'', type = Some (JString ''text'')\<rparr>] \<and>
   get_prop title_field ''enabled'' \<noteq> Some (JBool False) \<and>
   path_is_full title_field \<and>
   getFieldNamesFromFieldMapping ''title'' title_field =
     [\<lparr>name = JString ''title'', type = Some (JString ''text'')\<rparr>,
      \<lparr>name = JString ''title.raw'', type = Some (JString ''keyword'')\<rparr>] \<and>
   map_of (perAliasIndices initial_store) ''idx'' = None \<and>
   getFields (Suc 0) (loadMappings user_mappings initial_store) (Str ''idx'') Undefined =
     Returns [\<lparr>name = JString ''user.name'', type = Some (JString ''text'')\<rparr>]"
proof -
  have h1: "get_prop user_field ''enabled'' \<noteq> Some (JBool False)"
    by (simp add: user_field_def)
  have h2: "when_truthy (get_prop user_field ''properties'')
      = Some (JObject [(''name'', JObject [(''type'', JString ''text'')])])"
    by (simp add: user_field_def when_truthy_def)
  have h3: "path_is_full user_field"
    by (simp add: user_field_def path_is_full_def)
  have h4: "map_of (perAliasIndices initial_store) ''idx'' = None"
    by (simp add: initial_store_def)
  have n: "getFieldNamesFromProperties (Some (JObject [(''name'', JObject [(''type'', JString ''text'')])]))
      = [\<lparr>name = JString ''name'', type = Some (JString ''text'')\<rparr>]"
    by code_simp
  have g1: "get_prop title_field ''enabled'' \<noteq> Some (JBool False)"
    by (simp add: title_field_def)
  have g2: "when_truthy (get_prop title_field ''properties'') = None"
    by (simp add: title_field_def when_truthy_def)
  have g3: "when_truthy (get_prop title_field ''fields'')
      = Some (JObject [(''raw'', JObject [(''type'', JString ''keyword'')])])"
    by (simp add: title_field_def when_truthy_def)
  have g4: "path_is_full title_field"
    by (simp add: title_field_def path_is_full_def)
  have g5: "when_truthy (get_prop title_field ''index_name'') = None"
      "get_prop title_field ''type'' = Some (JString ''text'')"
    by (simp_all add: title_field_def when_truthy_def)
  have m: "flattened (JObject [(''raw'', JObject [(''type'', JString ''keyword'')])])
      = [\<lparr>name = JString ''raw'', type = Some (JString ''keyword'')\<rparr>]"
    by code_simp
  from h1 h2 h3 h4 path_policy [of user_field "JObject [(''name'', JObject [(''type'', JString ''text'')])]"
      "''user''" undefined initial_store 0]
  have u: "getFieldNamesFromFieldMapping ''user'' user_field =
       [\<lparr>name = JString ''user.name'', type = Some (JString ''text'')\<rparr>] \<and>
     getFields (Suc 0) (loadMappings user_mappings initial_store) (Str ''idx'') Undefined =
       Returns [\<lparr>name = JString ''user.name'', type = Some (JString ''text'')\<rparr>]"
    by (simp add: n prefixed_def)
  from g1 g2 g3 g4 g5 path_policy [of title_field undefined "''title''"
      "JObject [(''raw'', JObject [(''type'', JString ''keyword'')])]" initial_store 0]
  have t: "getFieldNamesFromFieldMapping ''title'' title_field =
     [\<lparr>name = JString ''title'', type = Some (JString ''text'')\<rparr>,
      \<lparr>name = JString ''title.raw'', type = Some (JString ''keyword'')\<rparr>]"
    by (simp add: m prefixed_def)
  from h1 h3 h4 g1 g4 u t show ?thesis by blast
qed

text \<open>
  Claim C5 as stated fails for a path that is present and falsy: with the path \<open>""\<close>,
  present and not \<^verbatim>\<open>"full"\<close>, the nested name is prefixed.
\<close>

definition empty_path_field :: json where
  "empty_path_field = JObject [(''path'', JString ''''),
     (''properties'', JObject [(''name'', JObject [(''type'', JString ''text'')])])]"

theorem empty_path_is_prefixed:
  "get_prop empty_path_field ''path'' = Some (JString '''') \<and>
   getFieldNamesFromFieldMapping ''user'' empty_path_field =
     [\<lparr>name = JString ''user.name'', type = Some (JString ''text'')\<rparr>]"
  by code_simp

subsection \<open>The poll cycle\<close>

lemma retrieveSection_not_true:
  "settingsToRetrieve key \<noteq> Some True \<Longrightarrow> retrieveSection send settingsToRetrieve key s = s"
  by (cases key)
    (auto simp: retrieveMappings_def retrieveAliases_def retrieveTemplates_def
      retrieveSettings_def when_truthy_def)

lemma poll_cycle_not_true:
  "list_all (\<lambda>key. settingsToRetrieve key \<noteq> Some True) settled \<Longrightarrow>
   poll_cycle settled send settingsToRetrieve s = s"
  unfolding poll_cycle_def
  by (induction settled) (simp_all add: retrieveSection_not_true)

text \<open>
  Claim C1 (the code departs from it). When every setting is \<^verbatim>\<open>false\<close>, a poll cycle
  leaves the store as it found it, whatever the transport answers and in whatever
  order the fetches settle: \<^verbatim>\<open>Promise.resolve({})\<close> has no \<^verbatim>\<open>body\<close>, so nothing is
  loaded and no section is reset. The same holds when no setting is a boolean.
\<close>

theorem poll_cycle_false_keeps_store:
  "poll_cycle settled send (\<lambda>key. Some False) s = s \<and>
   poll_cycle settled send (\<lambda>key. None) s = s"
  by (simp add: poll_cycle_not_true list_all_iff)

text \<open>A mappings payload with \<open>10 * 1024 * 1024 + 1\<close> top-level keys.\<close>

definition oversized_mappings :: json where
  "oversized_mappings = JObject (map (\<lambda>n. (string_of_nat n, JObject [])) [0..<10485761])"

lemma length_oversized_mappings: "length (Object_keys oversized_mappings) = 10485761"
  by (simp only: oversized_mappings_def Object_keys_def Object_entries.simps length_map length_upt
      diff_zero)

lemma truthy_oversized_mappings: "when_truthy (Some oversized_mappings) = Some oversized_mappings"
  by (simp only: oversized_mappings_def when_truthy_def truthy.simps if_True)

lemma loadMappings_braces:
  "perIndexTypes (loadMappings (JString ''{}'') s) = [(''0'', [(''0'', [])]), (''1'', [(''0'', [])])]"
  by (simp add: loadMappings_def normalizeIndexMapping_def obj_set_def Object_keys_def
      when_truthy_def is_array_index_def is_digit_def numeral_value_def string_of_nat.simps
      digit_char_def upt_rec)

text \<open>
  Claim C2 (the code departs from it). For the oversized payload \<open>loadMappings\<close> is
  called with the string \<^verbatim>\<open>'{}'\<close>, whose two characters are enumerated as the entries
  \<open>0\<close> and \<open>1\<close>: the store ends with two indices, where loading the empty object gives
  none.
\<close>

theorem oversized_mappings_not_empty:
  "perIndexTypes (retrieveMappings (\<lambda>path. Fulfilled (Some (Response (Some oversized_mappings))))
       (\<lambda>key. Some True) s)
     = [(''0'', [(''0'', [])]), (''1'', [(''0'', [])])] \<and>
   perIndexTypes (loadMappings (JObject []) s) = []"
proof -
  have "retrieveMappings (\<lambda>path. Fulfilled (Some (Response (Some oversized_mappings))))
       (\<lambda>key. Some True) s = loadMappings (JString ''{}'') s"
    by (simp add: retrieveMappings_def retrieveSettings_def truthy_oversized_mappings
        length_oversized_mappings)
  then show ?thesis
    by (simp add: loadMappings_braces) (simp add: loadMappings_def)
qed

subsection \<open>Scheduling\<close>

text \<open>
  Claim C9 (the code departs from it). Two calls before the fetches of the first have
  settled: the second call finds no timer of the first to cancel, and each cycle sets
  a timeout when it settles, so two timeouts are pending.
\<close>

theorem two_calls_two_timers:
  "run [Call, Call, Settled, Settled] initial_poller =
     Some \<lparr>pollTimeoutId = Some 2, timers = [1, 2], cycles = 0, nextTimer = 3\<rparr>"
  by (simp add: initial_poller_def retrieveAutoCompleteInfo_def clearSubscriptions_def
      allSettled_then_def)

end
